theory Spec2Isabelle
  imports Complex_Main
begin

section \<open>The collision simulator of Box.py and tools.py\<close>

text \<open>
  Python floats are modelled as \<^typ>\<open>real\<close>: arithmetic is exact, there is no
  rounding, no infinity and no NaN. The integer counter \<open>collisions\<close> is a
  \<^typ>\<open>nat\<close>. Every \<^verbatim>\<open>raise\<close> of the source, and every exception raised by an
  operator or library call the source uses (float division by zero, \<^verbatim>\<open>np.min\<close> of an
  empty array, \<^verbatim>\<open>self.times[-1]\<close> on an empty list), is a value of type \<open>error\<close>.
  The calls to \<^verbatim>\<open>time()\<close> and \<^verbatim>\<open>print\<close> do not touch the simulated state and are
  left out, and with them \<^verbatim>\<open>format_scientific\<close>, which only builds the printed
  report: its one division is by a power of ten, which is never zero in exact
  arithmetic.

  Exact arithmetic agrees with the program wherever the program's operations do not
  round. The statements about whole runs are therefore made at inputs where this is
  so (small whole numbers), or about counts, lengths and the order of events, which
  rounding does not touch.
\<close>

datatype error =
  ValueError_mass         \<comment> \<open>\<^verbatim>\<open>ValueError("Mass must be greater than 0.")\<close>\<close>
| ValueError_length       \<comment> \<open>\<^verbatim>\<open>ValueError("Length must be greater than 0.")\<close>\<close>
| ValueError_time         \<comment> \<open>\<^verbatim>\<open>ValueError('Time must be greater than or equal to 0 s.')\<close>\<close>
| Exception_overlap       \<comment> \<open>\<^verbatim>\<open>Exception("Simulation failed. Boxes overlap!")\<close>\<close>
| Exception_boundary      \<comment> \<open>\<^verbatim>\<open>Exception("One or both boxes are outside the left boundary ...")\<close>\<close>
| Exception_ordering      \<comment> \<open>\<^verbatim>\<open>Exception("Box 2 must be placed to the right of Box 1.")\<close>\<close>
| ZeroDivisionError       \<comment> \<open>float division by zero\<close>
| ValueError_empty_min    \<comment> \<open>\<^verbatim>\<open>np.min\<close> of a zero-size array\<close>
| IndexError              \<comment> \<open>\<^verbatim>\<open>self.times[-1]\<close> on an empty list\<close>

subsection \<open>Box.py\<close>

text \<open>
  The attributes of a \<^verbatim>\<open>Box\<close> object. The source calls them \<^verbatim>\<open>x\<close>, \<^verbatim>\<open>m\<close>, \<^verbatim>\<open>l\<close>,
  \<^verbatim>\<open>v\<close>, \<^verbatim>\<open>v0\<close>, \<^verbatim>\<open>x0\<close>, \<^verbatim>\<open>p\<close>, \<^verbatim>\<open>x_hist\<close>, \<^verbatim>\<open>v_hist\<close>, \<^verbatim>\<open>p_hist\<close> and \<^verbatim>\<open>times\<close>;
  the fields carry the prefix \<open>box_\<close> so that one-letter variables stay free
  and \<open>times\<close> does not clash with multiplication.
\<close>

record Box =
  box_x :: real
  box_m :: real
  box_l :: real
  box_v :: real
  box_v0 :: real
  box_x0 :: real
  box_p :: real
  box_x_hist :: "real list"
  box_v_hist :: "real list"
  box_p_hist :: "real list"
  box_times :: "real list"

text \<open>
  \<^verbatim>\<open>Box.__init__(x0, m, v0, l)\<close>. \<open>new_Box\<close> is the object the assignments of the
  constructor build, in source order; \<open>Box_init\<close> puts the two checks in front.
\<close>

definition new_Box :: "real \<Rightarrow> real \<Rightarrow> real \<Rightarrow> real \<Rightarrow> Box" where
  "new_Box x0 m v0 l =
     \<lparr> box_x = x0, box_m = m, box_l = l, box_v = v0, box_v0 = v0, box_x0 = x0,
       box_p = m * v0,
       box_x_hist = [x0], box_v_hist = [v0], box_p_hist = [m * v0],
       box_times = [0] \<rparr>"

definition Box_init :: "real \<Rightarrow> real \<Rightarrow> real \<Rightarrow> real \<Rightarrow> error + Box" where
  "Box_init x0 m v0 l =
     (if m \<le> 0 then Inl ValueError_mass
      else if l \<le> 0 then Inl ValueError_length
      else Inr (new_Box x0 m v0 l))"

text \<open>
  \<^verbatim>\<open>Box.update(v, x, t)\<close> mutates the object, so the model returns the outcome of the
  call together with the object as the call leaves it, also when it raises.
  A negative \<open>t\<close> raises before any assignment. \<^verbatim>\<open>self.times[-1]\<close> is evaluated
  last, after the three other histories were appended.
\<close>

definition update :: "real \<Rightarrow> real \<Rightarrow> real \<Rightarrow> Box \<Rightarrow> (error + unit) \<times> Box" where
  "update v x t b =
     (if t < 0 then (Inl ValueError_time, b)
      else
        let b1 = b\<lparr> box_x := x, box_v := v, box_p := box_m b * v \<rparr>;
            b2 = b1\<lparr> box_x_hist := box_x_hist b1 @ [box_x b1],
                      box_v_hist := box_v_hist b1 @ [box_v b1],
                      box_p_hist := box_p_hist b1 @ [box_p b1] \<rparr>
        in case box_times b2 of
             [] \<Rightarrow> (Inl IndexError, b2)
           | _ # _ \<Rightarrow> (Inr (), b2\<lparr> box_times := box_times b2 @ [t + last (box_times b2)] \<rparr>))"

text \<open>\<^verbatim>\<open>Box.check_overlap(Box2)\<close>: the chained comparison \<^verbatim>\<open>x2 < x1+l1 <= x2+l2\<close>.\<close>

definition check_overlap :: "Box \<Rightarrow> Box \<Rightarrow> error + unit" where
  "check_overlap b Box2 =
     (let x1 = box_x0 b; x2 = box_x0 Box2; l1 = box_l b; l2 = box_l Box2
      in if x2 < x1 + l1 \<and> x1 + l1 \<le> x2 + l2 then Inl Exception_overlap else Inr ())"

subsection \<open>tools.py\<close>

text \<open>\<^verbatim>\<open>np.diff\<close> of a one-dimensional array and \<^verbatim>\<open>np.min\<close>, which raises on an empty one.\<close>

fun np_diff :: "real list \<Rightarrow> real list" where
  "np_diff (a # b # xs) = (b - a) # np_diff (b # xs)"
| "np_diff _ = []"

definition np_min :: "real list \<Rightarrow> error + real" where
  "np_min xs = (case xs of [] \<Rightarrow> Inl ValueError_empty_min | y # ys \<Rightarrow> Inr (fold min ys y))"

text \<open>
  The state of the loop of \<^verbatim>\<open>elastic_collision_sim\<close>: the two objects and the counter.
  The two arguments are taken to be distinct objects.
\<close>

record sim_state =
  Box1 :: Box
  Box2 :: Box
  collisions :: nat

datatype outcome = Raise error | Break real | Continue

text \<open>
  The last three statements of the loop body: \<^verbatim>\<open>collisions += 1\<close>, then
  \<^verbatim>\<open>Box1.update(v1f, x1 + v1 * t, t)\<close>, then \<^verbatim>\<open>Box2.update(v2f, x2 + v2 * t, t)\<close>.
\<close>

definition advance :: "sim_state \<Rightarrow> real \<Rightarrow> real \<Rightarrow> real \<Rightarrow> outcome \<times> sim_state" where
  "advance s t v1f v2f =
     (let x1 = box_x (Box1 s); x2 = box_x (Box2 s);
          v1 = box_v (Box1 s); v2 = box_v (Box2 s);
          s1 = (s\<lparr> collisions := collisions s + 1 \<rparr>)
      in case update v1f (x1 + v1 * t) t (Box1 s1) of
           (Inl e, b1) \<Rightarrow> (Raise e, (s1\<lparr> Box1 := b1 \<rparr>))
         | (Inr _, b1) \<Rightarrow>
             (case update v2f (x2 + v2 * t) t (Box2 s1) of
                (Inl e, b2) \<Rightarrow> (Raise e, (s1\<lparr> Box1 := b1, Box2 := b2 \<rparr>))
              | (Inr _, b2) \<Rightarrow> (Continue, (s1\<lparr> Box1 := b1, Box2 := b2 \<rparr>))))"

text \<open>
  One pass through the body of \<^verbatim>\<open>while True\<close>. The three branches are in source
  order. In the last branch the quotient for \<open>t\<close> is evaluated first, then the two
  quotients by \<open>m1 + m2\<close>; each raises when its divisor is zero.
\<close>

definition iteration :: "real \<Rightarrow> sim_state \<Rightarrow> outcome \<times> sim_state" where
  "iteration left_bound s =
     (let m1 = box_m (Box1 s); x1 = box_x (Box1 s); x2 = box_x (Box2 s);
          l1 = box_l (Box1 s); m2 = box_m (Box2 s);
          v1 = box_v (Box1 s); v2 = box_v (Box2 s)
      in if v1 < 0 then
           (let dx = \<bar>x1 - left_bound\<bar>
            in if \<bar>v1\<bar> = 0 then (Raise ZeroDivisionError, s)
               else advance s (dx / \<bar>v1\<bar>) (- v1) v2)
         else if v1 < v2 \<and> v2 > 0 then
           (case np_min (np_diff (box_times (Box1 s))) of
              Inl e \<Rightarrow> (Raise e, s)
            | Inr dt_min \<Rightarrow> (Break dt_min, s))
         else
           (if v2 - v1 = 0 then (Raise ZeroDivisionError, s)
            else if m1 + m2 = 0 then (Raise ZeroDivisionError, s)
            else advance s ((x1 + l1 - x2) / (v2 - v1))
                   (((m1 - m2) * v1 + 2 * m2 * v2) / (m1 + m2))
                   (((m2 - m1) * v2 + 2 * m1 * v1) / (m1 + m2))))"

text \<open>
  The loop. It is not known to end on every input, so it is a partial function:
  \<open>None\<close> stands for a run that never leaves the loop.
\<close>

partial_function (option) sim_loop :: "real \<Rightarrow> sim_state \<Rightarrow> (outcome \<times> sim_state) option" where
  "sim_loop left_bound s =
     (case iteration left_bound s of
        (Continue, s') \<Rightarrow> sim_loop left_bound s'
      | (r, s') \<Rightarrow> Some (r, s'))"

text \<open>The dictionary returned by \<^verbatim>\<open>elastic_collision_sim\<close>.\<close>

record sim_data =
  Collisions :: nat
  Smallest_Interval :: real
  Box_1 :: Box
  Box_2 :: Box

text \<open>
  \<^verbatim>\<open>elastic_collision_sim(Box1, Box2, left_bound)\<close>: the three precondition checks,
  then the loop. The result pairs what the call returns or raises with the two
  objects as the call leaves them.
\<close>

definition elastic_collision_sim ::
    "Box \<Rightarrow> Box \<Rightarrow> real \<Rightarrow> ((error + sim_data) \<times> Box \<times> Box) option" where
  "elastic_collision_sim b1 b2 left_bound =
     (case check_overlap b1 b2 of
        Inl e \<Rightarrow> Some (Inl e, b1, b2)
      | Inr _ \<Rightarrow>
          if box_x0 b1 < left_bound \<or> box_x0 b2 < left_bound
            then Some (Inl Exception_boundary, b1, b2)
          else if box_x0 b2 < box_x0 b1
            then Some (Inl Exception_ordering, b1, b2)
          else
            (case sim_loop left_bound \<lparr> Box1 = b1, Box2 = b2, collisions = 0 \<rparr> of
               None \<Rightarrow> None
             | Some (Raise e, s) \<Rightarrow> Some (Inl e, Box1 s, Box2 s)
             | Some (Break dt_min, s) \<Rightarrow>
                 Some (Inr \<lparr> Collisions = collisions s, Smallest_Interval = dt_min,
                              Box_1 = Box1 s, Box_2 = Box2 s \<rparr>, Box1 s, Box2 s)
             | Some (Continue, s) \<Rightarrow> None))"

subsection \<open>Objects a caller can hold\<close>

text \<open>
  A \<^verbatim>\<open>Box\<close> object comes from the constructor and changes only through calls of
  \<^verbatim>\<open>update\<close>, with any arguments, whether the call returns or raises.
\<close>

inductive Box_reachable :: "Box \<Rightarrow> bool" where
  constructed: "Box_init x0 m v0 l = Inr b \<Longrightarrow> Box_reachable b"
| updated: "Box_reachable b \<Longrightarrow> Box_reachable (snd (update v x t b))"

text \<open>The four histories have one common length, at least 1, and the times never decrease.\<close>

definition histories_ok :: "Box \<Rightarrow> bool" where
  "histories_ok b \<longleftrightarrow>
     length (box_x_hist b) = length (box_times b) \<and>
     length (box_v_hist b) = length (box_times b) \<and>
     length (box_p_hist b) = length (box_times b) \<and>
     1 \<le> length (box_times b) \<and>
     sorted (box_times b)"

subsection \<open>Predicates used in the statements\<close>

text \<open>
  The three checks that \<^verbatim>\<open>elastic_collision_sim\<close> makes before its loop all pass.
\<close>

definition passes_preconditions :: "Box \<Rightarrow> Box \<Rightarrow> real \<Rightarrow> bool" where
  "passes_preconditions b1 b2 lb \<longleftrightarrow>
     check_overlap b1 b2 = Inr () \<and> \<not> (box_x0 b1 < lb \<or> box_x0 b2 < lb) \<and> \<not> box_x0 b2 < box_x0 b1"

text \<open>
  The specification's notion of overlap, which is not a function of the source: the
  half-open intervals \<open>[x0, x0 + l)\<close> of the two boxes have a point in common.
\<close>

definition footprints_intersect :: "Box \<Rightarrow> Box \<Rightarrow> bool" where
  "footprints_intersect b1 b2 \<longleftrightarrow>
     box_x0 b1 < box_x0 b2 + box_l b2 \<and> box_x0 b2 < box_x0 b1 + box_l b1"

section \<open>Properties of Box\<close>

subsection \<open>What a call of update does\<close>

lemma update_negative: "t < 0 \<Longrightarrow> update v x t b = (Inl ValueError_time, b)"
  by (simp add: update_def)

lemma update_ok:
  "0 \<le> t \<Longrightarrow> box_times b \<noteq> [] \<Longrightarrow>
   update v x t b =
     (Inr (), b\<lparr> box_x := x, box_v := v, box_p := box_m b * v,
                box_x_hist := box_x_hist b @ [x],
                box_v_hist := box_v_hist b @ [v],
                box_p_hist := box_p_hist b @ [box_m b * v],
                box_times := box_times b @ [t + last (box_times b)] \<rparr>)"
  by (cases "box_times b") (simp_all add: update_def Let_def)

lemma update_empty:
  "0 \<le> t \<Longrightarrow> box_times b = [] \<Longrightarrow> fst (update v x t b) = Inl IndexError"
  by (simp add: update_def Let_def)

lemma update_keeps_mass_length:
  "box_m (snd (update v x t b)) = box_m b \<and> box_l (snd (update v x t b)) = box_l b"
  by (cases "box_times b") (auto simp: update_def Let_def)

lemma update_keeps_momentum:
  "box_p b = box_m b * box_v b \<Longrightarrow>
   box_p (snd (update v x t b)) = box_m (snd (update v x t b)) * box_v (snd (update v x t b))"
  by (cases "box_times b") (auto simp: update_def Let_def)

subsection \<open>The histories\<close>

lemma sorted_le_last: "sorted xs \<Longrightarrow> y \<in> set xs \<Longrightarrow> y \<le> last (xs :: real list)"
  by (induction xs) auto

lemma sorted_snoc_last:
  assumes "sorted xs" "xs \<noteq> []" "0 \<le> t"
  shows "sorted (xs @ [t + last (xs :: real list)])"
proof -
  have "\<forall>y\<in>set xs. y \<le> t + last xs"
  proof
    fix y assume "y \<in> set xs"
    with assms(1) have "y \<le> last xs" by (rule sorted_le_last)
    with assms(3) show "y \<le> t + last xs" by simp
  qed
  with assms(1) show ?thesis by (simp add: sorted_append)
qed

lemma histories_ok_nonempty: "histories_ok b \<Longrightarrow> box_times b \<noteq> []"
  by (auto simp: histories_ok_def)

lemma histories_ok_new: "histories_ok (new_Box x0 m v0 l)"
  by (simp add: histories_ok_def new_Box_def)

lemma histories_ok_update:
  assumes "histories_ok b"
  shows "histories_ok (snd (update v x t b))"
proof (cases "t < 0")
  case True
  with assms show ?thesis by (simp add: update_negative)
next
  case False
  from assms have ne: "box_times b \<noteq> []" by (rule histories_ok_nonempty)
  from False have t: "0 \<le> t" by simp
  from assms have "sorted (box_times b)" by (simp add: histories_ok_def)
  then have "sorted (box_times b @ [t + last (box_times b)])"
    using ne t by (rule sorted_snoc_last)
  with assms ne t show ?thesis
    by (simp add: update_ok histories_ok_def)
qed

lemma Box_reachable_histories: "Box_reachable b \<Longrightarrow> histories_ok b"
  by (induction rule: Box_reachable.induct)
     (auto simp: Box_init_def histories_ok_new histories_ok_update split: if_splits)

lemma Box_reachable_new: "0 < m \<Longrightarrow> 0 < l \<Longrightarrow> Box_reachable (new_Box x0 m v0 l)"
  by (rule constructed [of x0 m v0 l]) (simp add: Box_init_def)

subsection \<open>Momentum\<close>

text \<open>
  C7. Every object built by the constructor (which then has a positive mass and a
  positive length) has its momentum equal to mass times velocity right after
  construction and after every call of \<^verbatim>\<open>update\<close>, whatever the arguments of the call.
\<close>

theorem momentum_is_mass_times_velocity:
  "Box_reachable b \<Longrightarrow> 0 < box_m b \<and> 0 < box_l b \<and> box_p b = box_m b * box_v b"
proof (induction rule: Box_reachable.induct)
  case (constructed x0 m v0 l b)
  then show ?case by (auto simp: Box_init_def new_Box_def split: if_splits)
next
  case (updated b v x t)
  then show ?case by (simp add: update_keeps_momentum update_keeps_mass_length)
qed

theorem momentum_is_mass_times_velocity_witness:
  "Box_reachable (snd (update 2 4 5 (new_Box 3 7 0 1))) \<and>
   box_p (snd (update 2 4 5 (new_Box 3 7 0 1))) = 14 \<and>
   box_m (snd (update 2 4 5 (new_Box 3 7 0 1))) = 7 \<and>
   box_v (snd (update 2 4 5 (new_Box 3 7 0 1))) = 2"
proof -
  have r: "Box_reachable (snd (update 2 4 5 (new_Box 3 7 0 1)))"
    by (rule updated, rule Box_reachable_new) simp_all
  from momentum_is_mass_times_velocity [OF r] r show ?thesis
    by (simp add: update_def new_Box_def Let_def)
qed

subsection \<open>The time check of update\<close>

text \<open>
  C10. A call of \<^verbatim>\<open>update\<close> raises the time error exactly when the elapsed time is
  negative; the object is then left as it was, in every field. When the call
  returns, the time appended is the elapsed time plus the last time recorded.
\<close>

theorem update_InvalidTime:
  "(fst (update v x t b) = Inl ValueError_time \<longleftrightarrow> t < 0) \<and>
   (t < 0 \<longrightarrow> snd (update v x t b) = b) \<and>
   (fst (update v x t b) = Inr () \<longrightarrow>
      box_times (snd (update v x t b)) = box_times b @ [t + last (box_times b)])"
  by (cases "box_times b") (auto simp: update_def Let_def)

theorem update_InvalidTime_witness:
  "fst (update 2 4 (- 1) (new_Box 3 1 0 1)) = Inl ValueError_time \<and>
   snd (update 2 4 (- 1) (new_Box 3 1 0 1)) = new_Box 3 1 0 1 \<and>
   fst (update 2 4 5 (new_Box 3 1 0 1)) = Inr () \<and>
   box_times (snd (update 2 4 5 (new_Box 3 1 0 1))) = [0, 5]"
  using update_InvalidTime [of 2 4 "- 1" "new_Box 3 1 0 1"]
        update_InvalidTime [of 2 4 5 "new_Box 3 1 0 1"]
  by (simp add: update_def new_Box_def Let_def)

section \<open>Properties of the loop\<close>

subsection \<open>Unfolding the loop\<close>


lemma sim_loop_Continue: "iteration lb s = (Continue, s') \<Longrightarrow> sim_loop lb s = sim_loop lb s'"
  by (subst sim_loop.simps) simp

lemma sim_loop_Break: "iteration lb s = (Break d, s') \<Longrightarrow> sim_loop lb s = Some (Break d, s')"
  by (subst sim_loop.simps) simp

lemma sim_loop_Raise: "iteration lb s = (Raise e, s') \<Longrightarrow> sim_loop lb s = Some (Raise e, s')"
  by (subst sim_loop.simps) simp

lemma sim_loop_last_aux:
  assumes run: "sim_loop lb s = Some rs"
  shows "(\<forall>s s'. P s \<longrightarrow> iteration lb s = (Continue, s') \<longrightarrow> P s') \<longrightarrow> P s \<longrightarrow>
         (\<exists>s0. P s0 \<and> iteration lb s0 = rs \<and> fst rs \<noteq> Continue)"
proof (rule sim_loop.raw_induct
    [where P = "\<lambda>lb s rs. (\<forall>s s'. P s \<longrightarrow> iteration lb s = (Continue, s') \<longrightarrow> P s') \<longrightarrow> P s \<longrightarrow>
         (\<exists>s0. P s0 \<and> iteration lb s0 = rs \<and> fst rs \<noteq> Continue)", OF _ run], goal_cases)
  case (1 f lb s rs)
  obtain r1 s1 where it: "iteration lb s = (r1, s1)" by (cases "iteration lb s")
  show ?case
  proof (cases r1)
    case Continue
    with it 1(2) have "f lb s1 = Some rs" by simp
    then have "(\<forall>s s'. P s \<longrightarrow> iteration lb s = (Continue, s') \<longrightarrow> P s') \<longrightarrow> P s1 \<longrightarrow>
      (\<exists>s0. P s0 \<and> iteration lb s0 = rs \<and> fst rs \<noteq> Continue)" by (rule 1(1))
    with it Continue show ?thesis by blast
  next
    case (Raise e)
    with it 1(2) have "rs = (Raise e, s1)" by simp
    with it Raise show ?thesis by auto
  next
    case (Break d)
    with it 1(2) have "rs = (Break d, s1)" by simp
    with it Break show ?thesis by auto
  qed
qed

lemma sim_loop_last:
  assumes "sim_loop lb s = Some (r, s')"
    and "P s"
    and "\<And>s s'. P s \<Longrightarrow> iteration lb s = (Continue, s') \<Longrightarrow> P s'"
  shows "\<exists>s0. P s0 \<and> iteration lb s0 = (r, s') \<and> r \<noteq> Continue"
  using sim_loop_last_aux [OF assms(1), of P] assms(2,3) by auto

subsection \<open>The tail of the loop body\<close>

lemma advance_negative:
  "t < 0 \<Longrightarrow> advance s t v1f v2f = (Raise ValueError_time, s\<lparr> collisions := collisions s + 1 \<rparr>)"
  by (simp add: advance_def update_negative)

lemma advance_ok:
  "0 \<le> t \<Longrightarrow> box_times (Box1 s) \<noteq> [] \<Longrightarrow> box_times (Box2 s) \<noteq> [] \<Longrightarrow>
   advance s t v1f v2f =
     (Continue,
      s\<lparr> collisions := collisions s + 1,
         Box1 := snd (update v1f (box_x (Box1 s) + box_v (Box1 s) * t) t (Box1 s)),
         Box2 := snd (update v2f (box_x (Box2 s) + box_v (Box2 s) * t) t (Box2 s)) \<rparr>)"
  by (simp add: advance_def update_ok Let_def)

lemma advance_Continue:
  assumes "advance s t v1f v2f = (Continue, s')"
  shows "0 \<le> t \<and> box_times (Box1 s) \<noteq> [] \<and> box_times (Box2 s) \<noteq> []"
proof -
  have "\<not> t < 0" using assms by (auto simp: advance_negative)
  moreover have "box_times (Box1 s) \<noteq> []"
    using assms calculation
    by (auto simp: advance_def update_def Let_def split: list.splits)
  moreover have "box_times (Box2 s) \<noteq> []"
    using assms calculation
    by (auto simp: advance_def update_def Let_def split: list.splits)
  ultimately show ?thesis by simp
qed

lemma advance_collisions: "collisions (snd (advance s t v1f v2f)) = collisions s + 1"
  by (auto simp: advance_def Let_def split: prod.splits sum.splits)

lemma advance_boxes:
  "Box1 (snd (advance s t v1f v2f)) = Box1 s \<or>
   Box1 (snd (advance s t v1f v2f)) = snd (update v1f (box_x (Box1 s) + box_v (Box1 s) * t) t (Box1 s))"
  "Box2 (snd (advance s t v1f v2f)) = Box2 s \<or>
   Box2 (snd (advance s t v1f v2f)) = snd (update v2f (box_x (Box2 s) + box_v (Box2 s) * t) t (Box2 s))"
  by (auto simp: advance_def Let_def split: prod.splits sum.splits)

subsection \<open>The three branches\<close>

lemma iteration_wall:
  "box_v (Box1 s) < 0 \<Longrightarrow>
   iteration lb s =
     advance s (\<bar>box_x (Box1 s) - lb\<bar> / \<bar>box_v (Box1 s)\<bar>) (- box_v (Box1 s)) (box_v (Box2 s))"
  by (simp add: iteration_def Let_def)

lemma iteration_exit:
  "\<not> box_v (Box1 s) < 0 \<Longrightarrow> box_v (Box1 s) < box_v (Box2 s) \<and> box_v (Box2 s) > 0 \<Longrightarrow>
   iteration lb s =
     (case np_min (np_diff (box_times (Box1 s))) of
        Inl e \<Rightarrow> (Raise e, s) | Inr dt_min \<Rightarrow> (Break dt_min, s))"
  by (simp add: iteration_def Let_def)

lemma iteration_collide:
  "\<not> box_v (Box1 s) < 0 \<Longrightarrow> \<not> (box_v (Box1 s) < box_v (Box2 s) \<and> box_v (Box2 s) > 0) \<Longrightarrow>
   iteration lb s =
     (if box_v (Box2 s) - box_v (Box1 s) = 0 then (Raise ZeroDivisionError, s)
      else if box_m (Box1 s) + box_m (Box2 s) = 0 then (Raise ZeroDivisionError, s)
      else advance s ((box_x (Box1 s) + box_l (Box1 s) - box_x (Box2 s))
                        / (box_v (Box2 s) - box_v (Box1 s)))
             (((box_m (Box1 s) - box_m (Box2 s)) * box_v (Box1 s)
                 + 2 * box_m (Box2 s) * box_v (Box2 s)) / (box_m (Box1 s) + box_m (Box2 s)))
             (((box_m (Box2 s) - box_m (Box1 s)) * box_v (Box2 s)
                 + 2 * box_m (Box1 s) * box_v (Box1 s)) / (box_m (Box1 s) + box_m (Box2 s))))"
  by (simp add: iteration_def Let_def)

lemma iteration_shape:
  "(\<exists>t v1f v2f. iteration lb s = advance s t v1f v2f) \<or> snd (iteration lb s) = s \<and> fst (iteration lb s) \<noteq> Continue"
  by (auto simp: iteration_def Let_def split: sum.splits)

lemma wall_time_nonneg: "0 \<le> \<bar>a - lb\<bar> / \<bar>c :: real\<bar>"
  by simp

lemma advance_ok_fields:
  assumes "0 \<le> t" and "box_times (Box1 s) \<noteq> []" and "box_times (Box2 s) \<noteq> []"
  shows "fst (advance s t v1f v2f) = Continue \<and>
         box_v (Box1 (snd (advance s t v1f v2f))) = v1f \<and>
         box_v (Box2 (snd (advance s t v1f v2f))) = v2f \<and>
         box_x (Box1 (snd (advance s t v1f v2f))) = box_x (Box1 s) + box_v (Box1 s) * t \<and>
         box_x (Box2 (snd (advance s t v1f v2f))) = box_x (Box2 s) + box_v (Box2 s) * t \<and>
         box_times (Box1 (snd (advance s t v1f v2f))) =
           box_times (Box1 s) @ [t + last (box_times (Box1 s))] \<and>
         box_times (Box2 (snd (advance s t v1f v2f))) =
           box_times (Box2 s) @ [t + last (box_times (Box2 s))]"
  using assms by (simp add: advance_ok update_ok)

text \<open>
  C6. In every pass of the loop that finds the left box's velocity negative, the
  wall-bounce branch runs and the pass completes: with \<open>t = |x1 - left_bound| / |v1|\<close>,
  the left box's velocity is negated, the right box keeps its velocity, both boxes
  move to position plus old velocity times \<open>t\<close>, and both record the time \<open>t\<close> later
  than their last one. The boxes are assumed to have a recorded time, as every
  constructed box does.
\<close>

theorem wall_bounce_event:
  assumes "box_v (Box1 s) < 0"
    and "box_times (Box1 s) \<noteq> []" and "box_times (Box2 s) \<noteq> []"
  shows "let x1 = box_x (Box1 s); x2 = box_x (Box2 s);
             v1 = box_v (Box1 s); v2 = box_v (Box2 s);
             t = \<bar>x1 - left_bound\<bar> / \<bar>v1\<bar>;
             s' = snd (iteration left_bound s)
         in fst (iteration left_bound s) = Continue \<and>
            box_v (Box1 s') = - v1 \<and> box_v (Box2 s') = v2 \<and>
            box_x (Box1 s') = x1 + v1 * t \<and> box_x (Box2 s') = x2 + v2 * t \<and>
            box_times (Box1 s') = box_times (Box1 s) @ [t + last (box_times (Box1 s))] \<and>
            box_times (Box2 s') = box_times (Box2 s) @ [t + last (box_times (Box2 s))]"
proof -
  define t where "t = \<bar>box_x (Box1 s) - left_bound\<bar> / \<bar>box_v (Box1 s)\<bar>"
  have t: "0 \<le> t" unfolding t_def by simp
  have it: "iteration left_bound s = advance s t (- box_v (Box1 s)) (box_v (Box2 s))"
    unfolding t_def using assms(1) by (rule iteration_wall)
  from advance_ok_fields [OF t assms(2,3)] show ?thesis
    unfolding Let_def it t_def [symmetric] .
qed

theorem wall_bounce_event_witness:
  "box_v (new_Box 1 1 (- 2) 1) < 0 \<and>
   fst (iteration 0 \<lparr> Box1 = new_Box 1 1 (- 2) 1, Box2 = new_Box 5 1 3 1, collisions = 0 \<rparr>) = Continue \<and>
   box_v (Box1 (snd (iteration 0 \<lparr> Box1 = new_Box 1 1 (- 2) 1, Box2 = new_Box 5 1 3 1, collisions = 0 \<rparr>))) = 2 \<and>
   box_x (Box1 (snd (iteration 0 \<lparr> Box1 = new_Box 1 1 (- 2) 1, Box2 = new_Box 5 1 3 1, collisions = 0 \<rparr>))) = 0 \<and>
   box_x (Box2 (snd (iteration 0 \<lparr> Box1 = new_Box 1 1 (- 2) 1, Box2 = new_Box 5 1 3 1, collisions = 0 \<rparr>))) = 13 / 2 \<and>
   box_times (Box2 (snd (iteration 0 \<lparr> Box1 = new_Box 1 1 (- 2) 1, Box2 = new_Box 5 1 3 1, collisions = 0 \<rparr>))) = [0, 1 / 2]"
  using wall_bounce_event
    [of "\<lparr> Box1 = new_Box 1 1 (- 2) 1, Box2 = new_Box 5 1 3 1, collisions = 0 \<rparr>" 0]
  by (simp add: new_Box_def Let_def)

text \<open>
  C5. In the default branch (the left velocity is not negative and the exit test
  fails) the pass completes as an event exactly when no division fails, the time
  \<open>t = (x1 + l1 - x2) / (v2 - v1)\<close> is not negative and both boxes have a recorded
  time. The event moves both boxes to position plus old velocity times \<open>t\<close>, records
  the time \<open>t\<close> later than the last one, and sets the velocities to
  \<open>((m1 - m2) v1 + 2 m2 v2) / (m1 + m2)\<close> and \<open>((m2 - m1) v2 + 2 m1 v1) / (m1 + m2)\<close>.
\<close>

theorem mutual_collision_event:
  assumes "\<not> box_v (Box1 s) < 0"
    and "\<not> (box_v (Box1 s) < box_v (Box2 s) \<and> box_v (Box2 s) > 0)"
  shows "let m1 = box_m (Box1 s); x1 = box_x (Box1 s); x2 = box_x (Box2 s);
             l1 = box_l (Box1 s); m2 = box_m (Box2 s);
             v1 = box_v (Box1 s); v2 = box_v (Box2 s);
             t = (x1 + l1 - x2) / (v2 - v1);
             s' = snd (iteration left_bound s)
         in (fst (iteration left_bound s) = Continue \<longleftrightarrow>
               v2 - v1 \<noteq> 0 \<and> m1 + m2 \<noteq> 0 \<and> 0 \<le> t \<and>
               box_times (Box1 s) \<noteq> [] \<and> box_times (Box2 s) \<noteq> []) \<and>
            (fst (iteration left_bound s) = Continue \<longrightarrow>
               box_x (Box1 s') = x1 + v1 * t \<and> box_x (Box2 s') = x2 + v2 * t \<and>
               box_v (Box1 s') = ((m1 - m2) * v1 + 2 * m2 * v2) / (m1 + m2) \<and>
               box_v (Box2 s') = ((m2 - m1) * v2 + 2 * m1 * v1) / (m1 + m2) \<and>
               box_times (Box1 s') = box_times (Box1 s) @ [t + last (box_times (Box1 s))] \<and>
               box_times (Box2 s') = box_times (Box2 s) @ [t + last (box_times (Box2 s))])"
proof -
  define t where "t = (box_x (Box1 s) + box_l (Box1 s) - box_x (Box2 s))
                        / (box_v (Box2 s) - box_v (Box1 s))"
  define v1f where "v1f = ((box_m (Box1 s) - box_m (Box2 s)) * box_v (Box1 s)
                 + 2 * box_m (Box2 s) * box_v (Box2 s)) / (box_m (Box1 s) + box_m (Box2 s))"
  define v2f where "v2f = ((box_m (Box2 s) - box_m (Box1 s)) * box_v (Box2 s)
                 + 2 * box_m (Box1 s) * box_v (Box1 s)) / (box_m (Box1 s) + box_m (Box2 s))"
  have it: "iteration left_bound s =
     (if box_v (Box2 s) - box_v (Box1 s) = 0 then (Raise ZeroDivisionError, s)
      else if box_m (Box1 s) + box_m (Box2 s) = 0 then (Raise ZeroDivisionError, s)
      else advance s t v1f v2f)"
    unfolding t_def v1f_def v2f_def using assms by (rule iteration_collide)
  have iff: "fst (iteration left_bound s) = Continue \<longleftrightarrow>
      box_v (Box2 s) - box_v (Box1 s) \<noteq> 0 \<and> box_m (Box1 s) + box_m (Box2 s) \<noteq> 0 \<and> 0 \<le> t \<and>
      box_times (Box1 s) \<noteq> [] \<and> box_times (Box2 s) \<noteq> []"
  proof
    assume c: "fst (iteration left_bound s) = Continue"
    then have d: "box_v (Box2 s) - box_v (Box1 s) \<noteq> 0 \<and> box_m (Box1 s) + box_m (Box2 s) \<noteq> 0"
      unfolding it by (auto split: if_splits)
    with c have "fst (advance s t v1f v2f) = Continue" unfolding it by simp
    then have "advance s t v1f v2f = (Continue, snd (advance s t v1f v2f))"
      by (metis prod.collapse)
    then have "0 \<le> t \<and> box_times (Box1 s) \<noteq> [] \<and> box_times (Box2 s) \<noteq> []"
      by (rule advance_Continue)
    with d show "box_v (Box2 s) - box_v (Box1 s) \<noteq> 0 \<and> box_m (Box1 s) + box_m (Box2 s) \<noteq> 0 \<and> 0 \<le> t \<and>
      box_times (Box1 s) \<noteq> [] \<and> box_times (Box2 s) \<noteq> []" by simp
  next
    assume a: "box_v (Box2 s) - box_v (Box1 s) \<noteq> 0 \<and> box_m (Box1 s) + box_m (Box2 s) \<noteq> 0 \<and> 0 \<le> t \<and>
      box_times (Box1 s) \<noteq> [] \<and> box_times (Box2 s) \<noteq> []"
    then have "iteration left_bound s = advance s t v1f v2f" unfolding it by simp
    with a show "fst (iteration left_bound s) = Continue" by (simp add: advance_ok)
  qed
  have fields: "box_x (Box1 (snd (iteration left_bound s))) = box_x (Box1 s) + box_v (Box1 s) * t \<and>
      box_x (Box2 (snd (iteration left_bound s))) = box_x (Box2 s) + box_v (Box2 s) * t \<and>
      box_v (Box1 (snd (iteration left_bound s))) = v1f \<and>
      box_v (Box2 (snd (iteration left_bound s))) = v2f \<and>
      box_times (Box1 (snd (iteration left_bound s))) =
        box_times (Box1 s) @ [t + last (box_times (Box1 s))] \<and>
      box_times (Box2 (snd (iteration left_bound s))) =
        box_times (Box2 s) @ [t + last (box_times (Box2 s))]"
    if c: "fst (iteration left_bound s) = Continue"
  proof -
    from c iff have a: "box_v (Box2 s) - box_v (Box1 s) \<noteq> 0" "box_m (Box1 s) + box_m (Box2 s) \<noteq> 0"
      "0 \<le> t" "box_times (Box1 s) \<noteq> []" "box_times (Box2 s) \<noteq> []" by simp_all
    then have eq: "iteration left_bound s = advance s t v1f v2f" unfolding it by simp
    from advance_ok_fields [OF a(3,4,5), of v1f v2f] show ?thesis unfolding eq by simp
  qed
  from iff fields show ?thesis
    unfolding Let_def t_def [symmetric] v1f_def [symmetric] v2f_def [symmetric] by blast
qed

theorem mutual_collision_event_witness:
  "fst (iteration 0 \<lparr> Box1 = new_Box 3 1 0 1, Box2 = new_Box 8 3 (- 1) 1, collisions = 0 \<rparr>) = Continue \<and>
   box_x (Box1 (snd (iteration 0 \<lparr> Box1 = new_Box 3 1 0 1, Box2 = new_Box 8 3 (- 1) 1, collisions = 0 \<rparr>))) = 3 \<and>
   box_x (Box2 (snd (iteration 0 \<lparr> Box1 = new_Box 3 1 0 1, Box2 = new_Box 8 3 (- 1) 1, collisions = 0 \<rparr>))) = 4 \<and>
   box_v (Box1 (snd (iteration 0 \<lparr> Box1 = new_Box 3 1 0 1, Box2 = new_Box 8 3 (- 1) 1, collisions = 0 \<rparr>))) = - 3 / 2 \<and>
   box_v (Box2 (snd (iteration 0 \<lparr> Box1 = new_Box 3 1 0 1, Box2 = new_Box 8 3 (- 1) 1, collisions = 0 \<rparr>))) = - 1 / 2 \<and>
   box_times (Box1 (snd (iteration 0 \<lparr> Box1 = new_Box 3 1 0 1, Box2 = new_Box 8 3 (- 1) 1, collisions = 0 \<rparr>))) = [0, 4]"
  using mutual_collision_event
    [of "\<lparr> Box1 = new_Box 3 1 0 1, Box2 = new_Box 8 3 (- 1) 1, collisions = 0 \<rparr>" 0]
  by (simp add: new_Box_def Let_def)

subsection \<open>Runs on concrete inputs\<close>

lemmas run_simps = iteration_def advance_def update_def new_Box_def np_min_def Let_def

lemma run_wall_only:
  "elastic_collision_sim (new_Box 1 1 (- 1) 1) (new_Box 5 1 2 1) 0 =
     Some (Inr \<lparr> Collisions = 1, Smallest_Interval = 1,
                 Box_1 = snd (update 1 0 1 (new_Box 1 1 (- 1) 1)),
                 Box_2 = snd (update 2 7 1 (new_Box 5 1 2 1)) \<rparr>,
           snd (update 1 0 1 (new_Box 1 1 (- 1) 1)),
           snd (update 2 7 1 (new_Box 5 1 2 1)))"
proof -
  define s0 where "s0 = \<lparr> Box1 = new_Box 1 1 (- 1) 1, Box2 = new_Box 5 1 2 1, collisions = 0 \<rparr>"
  define s1 where "s1 = \<lparr> Box1 = snd (update 1 0 1 (new_Box 1 1 (- 1) 1)),
                           Box2 = snd (update 2 7 1 (new_Box 5 1 2 1)), collisions = 1 \<rparr>"
  have i1: "iteration 0 s0 = (Continue, s1)"
    by (simp add: s0_def s1_def run_simps)
  have i2: "iteration 0 s1 = (Break 1, s1)"
    by (simp add: s1_def run_simps)
  have "sim_loop 0 s0 = Some (Break 1, s1)"
    using sim_loop_Continue [OF i1] sim_loop_Break [OF i2] by simp
  then show ?thesis
    unfolding s0_def s1_def
    by (simp add: elastic_collision_sim_def check_overlap_def) (simp add: new_Box_def)
qed

lemma run_equal_velocities:
  "elastic_collision_sim (new_Box 0 1 1 1) (new_Box 5 1 1 1) 0 =
     Some (Inl ZeroDivisionError, new_Box 0 1 1 1, new_Box 5 1 1 1)"
proof -
  define s0 where "s0 = \<lparr> Box1 = new_Box 0 1 1 1, Box2 = new_Box 5 1 1 1, collisions = 0 \<rparr>"
  have i1: "iteration 0 s0 = (Raise ZeroDivisionError, s0)"
    by (simp add: s0_def run_simps)
  have "sim_loop 0 s0 = Some (Raise ZeroDivisionError, s0)"
    using sim_loop_Raise [OF i1] by simp
  then show ?thesis
    unfolding s0_def
    by (simp add: elastic_collision_sim_def check_overlap_def) (simp add: new_Box_def)
qed

lemma run_already_apart:
  "elastic_collision_sim (new_Box 0 1 0 1) (new_Box 5 1 1 1) 0 =
     Some (Inl ValueError_empty_min, new_Box 0 1 0 1, new_Box 5 1 1 1)"
proof -
  define s0 where "s0 = \<lparr> Box1 = new_Box 0 1 0 1, Box2 = new_Box 5 1 1 1, collisions = 0 \<rparr>"
  have i1: "iteration 0 s0 = (Raise ValueError_empty_min, s0)"
    by (simp add: s0_def run_simps)
  have "sim_loop 0 s0 = Some (Raise ValueError_empty_min, s0)"
    using sim_loop_Raise [OF i1] by simp
  then show ?thesis
    unfolding s0_def
    by (simp add: elastic_collision_sim_def check_overlap_def) (simp add: new_Box_def)
qed

lemma run_contained:
  "elastic_collision_sim (new_Box 0 1 0 10) (new_Box 2 1 (- 1) 1) 0 =
     Some (Inl ValueError_time, new_Box 0 1 0 10, new_Box 2 1 (- 1) 1)"
proof -
  define s0 where "s0 = \<lparr> Box1 = new_Box 0 1 0 10, Box2 = new_Box 2 1 (- 1) 1, collisions = 0 \<rparr>"
  have i1: "iteration 0 s0 = (Raise ValueError_time, s0\<lparr> collisions := 1 \<rparr>)"
    by (simp add: s0_def run_simps)
  have "sim_loop 0 s0 = Some (Raise ValueError_time, s0\<lparr> collisions := 1 \<rparr>)"
    using sim_loop_Raise [OF i1] by simp
  then show ?thesis
    unfolding s0_def
    by (simp add: elastic_collision_sim_def check_overlap_def) (simp add: new_Box_def)
qed

lemma run_bounce_then_equal:
  "elastic_collision_sim (new_Box 1 1 (- 1) 1) (new_Box 5 1 1 1) 0 =
     Some (Inl ZeroDivisionError,
           snd (update 1 0 1 (new_Box 1 1 (- 1) 1)),
           snd (update 1 6 1 (new_Box 5 1 1 1)))"
proof -
  define s0 where "s0 = \<lparr> Box1 = new_Box 1 1 (- 1) 1, Box2 = new_Box 5 1 1 1, collisions = 0 \<rparr>"
  define s1 where "s1 = \<lparr> Box1 = snd (update 1 0 1 (new_Box 1 1 (- 1) 1)),
                           Box2 = snd (update 1 6 1 (new_Box 5 1 1 1)), collisions = 1 \<rparr>"
  have i1: "iteration 0 s0 = (Continue, s1)"
    by (simp add: s0_def s1_def run_simps)
  have i2: "iteration 0 s1 = (Raise ZeroDivisionError, s1)"
    by (simp add: s1_def run_simps)
  have "sim_loop 0 s0 = Some (Raise ZeroDivisionError, s1)"
    using sim_loop_Continue [OF i1] sim_loop_Raise [OF i2] by simp
  then show ?thesis
    unfolding s0_def s1_def
    by (simp add: elastic_collision_sim_def check_overlap_def) (simp add: new_Box_def)
qed

subsection \<open>What one pass changes\<close>

lemma advance_Continue_state:
  assumes "advance s t v1f v2f = (Continue, s')"
  shows "s' = s\<lparr> collisions := collisions s + 1,
                  Box1 := snd (update v1f (box_x (Box1 s) + box_v (Box1 s) * t) t (Box1 s)),
                  Box2 := snd (update v2f (box_x (Box2 s) + box_v (Box2 s) * t) t (Box2 s)) \<rparr>"
    and "0 \<le> t" and "box_times (Box1 s) \<noteq> []" and "box_times (Box2 s) \<noteq> []"
proof -
  from assms have c: "0 \<le> t \<and> box_times (Box1 s) \<noteq> [] \<and> box_times (Box2 s) \<noteq> []"
    by (rule advance_Continue)
  then show "0 \<le> t" "box_times (Box1 s) \<noteq> []" "box_times (Box2 s) \<noteq> []" by simp_all
  from c assms show "s' = s\<lparr> collisions := collisions s + 1,
                  Box1 := snd (update v1f (box_x (Box1 s) + box_v (Box1 s) * t) t (Box1 s)),
                  Box2 := snd (update v2f (box_x (Box2 s) + box_v (Box2 s) * t) t (Box2 s)) \<rparr>"
    by (simp add: advance_ok)
qed

lemma iteration_Continue_advance:
  assumes "iteration lb s = (Continue, s')"
  shows "\<exists>t v1f v2f. advance s t v1f v2f = (Continue, s')"
proof -
  from iteration_shape [of lb s] assms
  obtain t v1f v2f where "iteration lb s = advance s t v1f v2f" by auto
  with assms have "advance s t v1f v2f = (Continue, s')" by simp
  then show ?thesis by blast
qed

lemma iteration_Continue_counts:
  assumes "iteration lb s = (Continue, s')"
  shows "collisions s' = collisions s + 1 \<and>
         length (box_times (Box1 s')) = length (box_times (Box1 s)) + 1 \<and>
         length (box_times (Box2 s')) = length (box_times (Box2 s)) + 1"
proof -
  from assms obtain t v1f v2f where a: "advance s t v1f v2f = (Continue, s')"
    using iteration_Continue_advance by blast
  from advance_Continue_state [OF a] show ?thesis by (simp add: update_ok)
qed

lemma iteration_reachable:
  "Box_reachable (Box1 s) \<Longrightarrow> Box_reachable (Box1 (snd (iteration lb s)))"
  "Box_reachable (Box2 s) \<Longrightarrow> Box_reachable (Box2 (snd (iteration lb s)))"
  using iteration_shape [of lb s] advance_boxes [of s]
  by (metis updated)+

lemma iteration_same_length:
  assumes "box_times (Box1 s) \<noteq> []" and "box_times (Box2 s) \<noteq> []"
    and "length (box_times (Box1 s)) = length (box_times (Box2 s))"
  shows "length (box_times (Box1 (snd (iteration lb s)))) =
         length (box_times (Box2 (snd (iteration lb s))))"
proof -
  consider (adv) t v1f v2f where "iteration lb s = advance s t v1f v2f"
    | (same) "snd (iteration lb s) = s"
    using iteration_shape [of lb s] by blast
  then show ?thesis
  proof cases
    case adv
    show ?thesis
    proof (cases "t < 0")
      case True
      with adv assms show ?thesis by (simp add: advance_negative)
    next
      case False
      with adv assms show ?thesis by (simp add: advance_ok update_ok)
    qed
  next
    case same
    with assms show ?thesis by simp
  qed
qed

lemma iteration_Raise:
  assumes "iteration lb s = (Raise e, s')"
  shows "e \<in> {ValueError_time, ZeroDivisionError, ValueError_empty_min, IndexError}"
proof -
  have u: "fst (update v x t b) \<in> {Inl ValueError_time, Inl IndexError, Inr ()}" for v x t b
    by (cases "box_times b") (auto simp: update_def Let_def)
  have adv: "fst (advance s t v1f v2f) \<in> {Raise ValueError_time, Raise IndexError, Continue}"
    for t v1f v2f
    using u [of v1f "box_x (Box1 s) + box_v (Box1 s) * t" t "Box1 s"]
      u [of v2f "box_x (Box2 s) + box_v (Box2 s) * t" t "Box2 s"]
    by (auto simp: advance_def Let_def split: prod.splits sum.splits)
  have "fst (iteration lb s) \<in>
      {Raise ValueError_time, Raise IndexError, Continue, Raise ZeroDivisionError,
       Raise ValueError_empty_min} \<union> range Break"
    using adv by (auto simp: iteration_def Let_def np_min_def split: list.splits)
  with assms show ?thesis by auto
qed

subsection \<open>What a run returns\<close>

lemma advance_not_Break: "fst (advance s t v1f v2f) \<noteq> Break d"
  by (auto simp: advance_def Let_def split: prod.splits sum.splits)

lemma iteration_Break:
  assumes "iteration lb s = (Break d, s')"
  shows "s' = s"
proof -
  consider (adv) t v1f v2f where "iteration lb s = advance s t v1f v2f"
    | (same) "snd (iteration lb s) = s"
    using iteration_shape [of lb s] by blast
  then show ?thesis
  proof cases
    case adv
    with assms advance_not_Break [of s t v1f v2f d] show ?thesis by simp
  next
    case same
    with assms show ?thesis by simp
  qed
qed

lemma sim_loop_counts:
  assumes "sim_loop lb s = Some (Break d, s')"
  shows "collisions s' + length (box_times (Box1 s)) =
         collisions s + length (box_times (Box1 s'))"
proof -
  let ?P = "\<lambda>u. collisions u + length (box_times (Box1 s)) =
                   collisions s + length (box_times (Box1 u))"
  have "\<exists>s0. ?P s0 \<and> iteration lb s0 = (Break d, s') \<and> Break d \<noteq> Continue"
  proof (rule sim_loop_last [OF assms, of ?P])
    show "?P s" by simp
  next
    fix u u' assume "?P u" and "iteration lb u = (Continue, u')"
    then show "?P u'" using iteration_Continue_counts [of lb u u'] by simp
  qed
  then obtain s0 where p: "?P s0" and it: "iteration lb s0 = (Break d, s')" by blast
  from it have "s' = s0" by (rule iteration_Break)
  with p show ?thesis by simp
qed

lemma sim_loop_histories:
  assumes "sim_loop lb s = Some (r, s')"
    and "Box_reachable (Box1 s)" and "Box_reachable (Box2 s)"
    and "length (box_times (Box1 s)) = length (box_times (Box2 s))"
  shows "Box_reachable (Box1 s') \<and> Box_reachable (Box2 s') \<and>
         length (box_times (Box1 s')) = length (box_times (Box2 s'))"
proof -
  let ?P = "\<lambda>u. Box_reachable (Box1 u) \<and> Box_reachable (Box2 u) \<and>
                   length (box_times (Box1 u)) = length (box_times (Box2 u))"
  have keep: "?P (snd (iteration lb u))" if "?P u" for u
  proof -
    from that have "box_times (Box1 u) \<noteq> []" "box_times (Box2 u) \<noteq> []"
      by (simp_all add: Box_reachable_histories histories_ok_nonempty)
    with that show ?thesis
      by (simp add: iteration_reachable iteration_same_length)
  qed
  have "\<exists>s0. ?P s0 \<and> iteration lb s0 = (r, s') \<and> r \<noteq> Continue"
  proof (rule sim_loop_last [OF assms(1), of ?P])
    show "?P s" using assms by simp
  next
    fix u u' assume "?P u" and "iteration lb u = (Continue, u')"
    then show "?P u'" using keep [of u] by simp
  qed
  then obtain s0 where "?P s0" and "iteration lb s0 = (r, s')" by blast
  then show ?thesis using keep [of s0] by simp
qed

lemma sim_fails_preconditions:
  "\<not> passes_preconditions b1 b2 lb \<Longrightarrow>
   \<exists>e \<in> {Exception_overlap, Exception_boundary, Exception_ordering}.
     elastic_collision_sim b1 b2 lb = Some (Inl e, b1, b2)"
  by (auto simp: passes_preconditions_def elastic_collision_sim_def check_overlap_def Let_def)

lemma sim_passes_preconditions:
  "passes_preconditions b1 b2 lb \<Longrightarrow>
   elastic_collision_sim b1 b2 lb =
     (case sim_loop lb \<lparr> Box1 = b1, Box2 = b2, collisions = 0 \<rparr> of
        None \<Rightarrow> None
      | Some (Raise e, s) \<Rightarrow> Some (Inl e, Box1 s, Box2 s)
      | Some (Break dt_min, s) \<Rightarrow>
          Some (Inr \<lparr> Collisions = collisions s, Smallest_Interval = dt_min,
                       Box_1 = Box1 s, Box_2 = Box2 s \<rparr>, Box1 s, Box2 s)
      | Some (Continue, s) \<Rightarrow> None)"
  by (simp add: passes_preconditions_def elastic_collision_sim_def)

lemma sim_result_loop:
  assumes "passes_preconditions b1 b2 lb"
    and "elastic_collision_sim b1 b2 lb = Some (res, b1', b2')"
  obtains r s' where "sim_loop lb \<lparr> Box1 = b1, Box2 = b2, collisions = 0 \<rparr> = Some (r, s')"
    and "b1' = Box1 s'" and "b2' = Box2 s'"
    and "\<And>d. r = Break d \<Longrightarrow> res = Inr \<lparr> Collisions = collisions s', Smallest_Interval = d,
                                      Box_1 = Box1 s', Box_2 = Box2 s' \<rparr>"
    and "\<And>e. r = Raise e \<Longrightarrow> res = Inl e"
    and "r \<noteq> Continue"
proof (cases "sim_loop lb \<lparr> Box1 = b1, Box2 = b2, collisions = 0 \<rparr>")
  case None
  with assms show ?thesis by (simp add: sim_passes_preconditions)
next
  case (Some rs)
  obtain r s' where rs: "rs = (r, s')" by (cases rs)
  from Some rs have loop: "sim_loop lb \<lparr> Box1 = b1, Box2 = b2, collisions = 0 \<rparr> = Some (r, s')"
    by simp
  from assms have e: "(case r of
        Raise e \<Rightarrow> Some (Inl e, Box1 s', Box2 s')
      | Break dt_min \<Rightarrow>
          Some (Inr \<lparr> Collisions = collisions s', Smallest_Interval = dt_min,
                       Box_1 = Box1 s', Box_2 = Box2 s' \<rparr>, Box1 s', Box2 s')
      | Continue \<Rightarrow> None) = Some (res, b1', b2')"
    by (simp add: sim_passes_preconditions loop)
  have 1: "b1' = Box1 s'" "b2' = Box2 s'" "r \<noteq> Continue"
    using e by (cases r; simp)+
  have 2: "res = Inr \<lparr> Collisions = collisions s', Smallest_Interval = d,
                                      Box_1 = Box1 s', Box_2 = Box2 s' \<rparr>" if "r = Break d" for d
    using e that by auto
  have 3: "res = Inl e" if "r = Raise e" for e
    using e that by auto
  show ?thesis by (rule that [OF loop 1(1) 1(2) 2 3 1(3)])
qed

section \<open>The claims about the engine\<close>

subsection \<open>The collision count\<close>

lemma wall_only_step1:
  "iteration 0 \<lparr> Box1 = new_Box 1 1 (- 1) 1, Box2 = new_Box 5 1 2 1, collisions = 0 \<rparr> =
     (Continue, \<lparr> Box1 = snd (update 1 0 1 (new_Box 1 1 (- 1) 1)),
                  Box2 = snd (update 2 7 1 (new_Box 5 1 2 1)), collisions = 1 \<rparr>)"
  by (simp add: run_simps)

lemma wall_only_step2:
  "iteration 0 \<lparr> Box1 = snd (update 1 0 1 (new_Box 1 1 (- 1) 1)),
                 Box2 = snd (update 2 7 1 (new_Box 5 1 2 1)), collisions = 1 \<rparr> =
     (Break 1, \<lparr> Box1 = snd (update 1 0 1 (new_Box 1 1 (- 1) 1)),
                 Box2 = snd (update 2 7 1 (new_Box 5 1 2 1)), collisions = 1 \<rparr>)"
  by (simp add: run_simps)

text \<open>
  C1, as stated, fails. The run below starts with the left box moving towards the
  wall: its first pass is a wall bounce and raises the counter from 0 to 1, its
  second pass leaves the loop. No mutual collision happens, and the count returned
  is 1.
\<close>

theorem wall_bounce_is_counted_counterexample:
  "box_v (Box1 \<lparr> Box1 = new_Box 1 1 (- 1) 1, Box2 = new_Box 5 1 2 1, collisions = 0 \<rparr>) < 0 \<and>
   collisions (snd (iteration 0
       \<lparr> Box1 = new_Box 1 1 (- 1) 1, Box2 = new_Box 5 1 2 1, collisions = 0 \<rparr>)) = 1 \<and>
   elastic_collision_sim (new_Box 1 1 (- 1) 1) (new_Box 5 1 2 1) 0 =
     Some (Inr \<lparr> Collisions = 1, Smallest_Interval = 1,
                 Box_1 = snd (update 1 0 1 (new_Box 1 1 (- 1) 1)),
                 Box_2 = snd (update 2 7 1 (new_Box 5 1 2 1)) \<rparr>,
           snd (update 1 0 1 (new_Box 1 1 (- 1) 1)),
           snd (update 2 7 1 (new_Box 5 1 2 1)))"
  by (simp add: wall_only_step1 run_wall_only) (simp add: new_Box_def)

text \<open>
  C1, amended. The statement \<^verbatim>\<open>collisions += 1\<close> follows the three branches, so the
  counter goes up by exactly 1 in every pass that performs an event, a wall bounce
  as much as a mutual collision, and stays as it is in the pass that leaves the
  loop. The count a run returns is therefore the number of entries the run appended
  to the left box's times.
\<close>

theorem collisions_counts_every_event:
  "(box_v (Box1 s) < 0 \<longrightarrow> collisions (snd (iteration left_bound s)) = collisions s + 1) \<and>
   (iteration left_bound s = (Continue, s') \<longrightarrow> collisions s' = collisions s + 1) \<and>
   (iteration left_bound s = (Break d, s') \<longrightarrow> collisions s' = collisions s) \<and>
   (elastic_collision_sim b1 b2 left_bound = Some (Inr r, b1', b2') \<longrightarrow>
      Collisions r + length (box_times b1) = length (box_times (Box_1 r)))"
proof (intro conjI impI)
  assume "box_v (Box1 s) < 0"
  then show "collisions (snd (iteration left_bound s)) = collisions s + 1"
    by (simp add: iteration_wall advance_collisions)
next
  assume "iteration left_bound s = (Continue, s')"
  then show "collisions s' = collisions s + 1"
    using iteration_Continue_counts by blast
next
  assume "iteration left_bound s = (Break d, s')"
  then have "s' = s" by (rule iteration_Break)
  then show "collisions s' = collisions s" by simp
next
  assume run: "elastic_collision_sim b1 b2 left_bound = Some (Inr r, b1', b2')"
  have pre: "passes_preconditions b1 b2 left_bound"
  proof (rule ccontr)
    assume "\<not> passes_preconditions b1 b2 left_bound"
    from sim_fails_preconditions [OF this] run show False by auto
  qed
  show "Collisions r + length (box_times b1) = length (box_times (Box_1 r))"
  proof (rule sim_result_loop [OF pre run])
    fix o' u
    assume loop: "sim_loop left_bound \<lparr> Box1 = b1, Box2 = b2, collisions = 0 \<rparr> = Some (o', u)"
      and brk: "\<And>d. o' = Break d \<Longrightarrow> Inr r = Inr \<lparr> Collisions = collisions u,
                   Smallest_Interval = d, Box_1 = Box1 u, Box_2 = Box2 u \<rparr>"
      and rse: "\<And>e. o' = Raise e \<Longrightarrow> Inr r = Inl e" and nc: "o' \<noteq> Continue"
    from rse nc obtain d where o': "o' = Break d" by (cases o') auto
    from brk [OF o'] have r: "Collisions r = collisions u" "Box_1 r = Box1 u" by auto
    from loop o'
    have "sim_loop left_bound \<lparr> Box1 = b1, Box2 = b2, collisions = 0 \<rparr> = Some (Break d, u)"
      by simp
    from sim_loop_counts [OF this] r show ?thesis by simp
  qed
qed

theorem collisions_counts_every_event_witness:
  "collisions (snd (iteration 0
       \<lparr> Box1 = new_Box 1 1 (- 1) 1, Box2 = new_Box 5 1 2 1, collisions = 0 \<rparr>)) = 1 \<and>
   collisions (snd (iteration 0
       \<lparr> Box1 = snd (update 1 0 1 (new_Box 1 1 (- 1) 1)),
         Box2 = snd (update 2 7 1 (new_Box 5 1 2 1)), collisions = 1 \<rparr>)) = 1 \<and>
   length (box_times (snd (update 1 0 1 (new_Box 1 1 (- 1) 1)))) =
     1 + length (box_times (new_Box 1 1 (- 1) 1))"
proof -
  let ?s0 = "\<lparr> Box1 = new_Box 1 1 (- 1) 1, Box2 = new_Box 5 1 2 1, collisions = 0 \<rparr>"
  let ?s1 = "\<lparr> Box1 = snd (update 1 0 1 (new_Box 1 1 (- 1) 1)),
               Box2 = snd (update 2 7 1 (new_Box 5 1 2 1)), collisions = 1 \<rparr>"
  let ?r = "\<lparr> Collisions = 1, Smallest_Interval = 1,
               Box_1 = snd (update 1 0 1 (new_Box 1 1 (- 1) 1)),
               Box_2 = snd (update 2 7 1 (new_Box 5 1 2 1)) \<rparr>"
  have neg: "box_v (Box1 ?s0) < 0" by (simp add: new_Box_def)
  note first = collisions_counts_every_event
      [of ?s0 0 ?s1 1 "new_Box 1 1 (- 1) 1" "new_Box 5 1 2 1" ?r
          "snd (update 1 0 1 (new_Box 1 1 (- 1) 1))" "snd (update 2 7 1 (new_Box 5 1 2 1))"]
  note second = collisions_counts_every_event [of ?s1 0 ?s1 1]
  from first neg have a: "collisions (snd (iteration 0 ?s0)) = collisions ?s0 + 1" by blast
  from second wall_only_step2 have b: "collisions ?s1 = collisions ?s1" by blast
  from first run_wall_only
  have c: "Collisions ?r + length (box_times (new_Box 1 1 (- 1) 1)) = length (box_times (Box_1 ?r))"
    by blast
  from a have "collisions (snd (iteration 0 ?s0)) = 1" by simp
  moreover have "collisions (snd (iteration 0 ?s1)) = 1" by (subst wall_only_step2) simp
  moreover from c have "length (box_times (snd (update 1 0 1 (new_Box 1 1 (- 1) 1)))) =
     1 + length (box_times (new_Box 1 1 (- 1) 1))" by simp
  ultimately show ?thesis by blast
qed

subsection \<open>The histories of the two boxes\<close>

text \<open>
  C8. Every object that comes from the constructor and any calls of \<^verbatim>\<open>update\<close> has
  four histories of one common length, at least 1, and times that never decrease.
  A pass of the loop that performs an event appends exactly one time to each box,
  and a run started on two such objects with equally long histories leaves two such
  objects with equally long histories, whether it returns or raises.
\<close>

theorem histories_stay_aligned:
  "(Box_reachable b \<longrightarrow>
      length (box_x_hist b) = length (box_times b) \<and>
      length (box_v_hist b) = length (box_times b) \<and>
      length (box_p_hist b) = length (box_times b) \<and>
      1 \<le> length (box_times b) \<and>
      sorted (box_times b)) \<and>
   (iteration left_bound s = (Continue, s') \<longrightarrow>
      length (box_times (Box1 s')) = length (box_times (Box1 s)) + 1 \<and>
      length (box_times (Box2 s')) = length (box_times (Box2 s)) + 1) \<and>
   (Box_reachable b1 \<and> Box_reachable b2 \<and> length (box_times b1) = length (box_times b2) \<and>
    elastic_collision_sim b1 b2 left_bound = Some (res, b1', b2') \<longrightarrow>
      Box_reachable b1' \<and> Box_reachable b2' \<and> length (box_times b1') = length (box_times b2'))"
proof (intro conjI impI)
  assume "Box_reachable b"
  then have h: "histories_ok b" by (rule Box_reachable_histories)
  then show "length (box_x_hist b) = length (box_times b)"
    "length (box_v_hist b) = length (box_times b)"
    "length (box_p_hist b) = length (box_times b)"
    "1 \<le> length (box_times b)" "sorted (box_times b)"
    by (simp_all add: histories_ok_def)
next
  assume it: "iteration left_bound s = (Continue, s')"
  then show "length (box_times (Box1 s')) = length (box_times (Box1 s)) + 1"
    "length (box_times (Box2 s')) = length (box_times (Box2 s)) + 1"
    using iteration_Continue_counts [OF it] by simp_all
next
  assume a: "Box_reachable b1 \<and> Box_reachable b2 \<and> length (box_times b1) = length (box_times b2) \<and>
    elastic_collision_sim b1 b2 left_bound = Some (res, b1', b2')"
  have "Box_reachable b1' \<and> Box_reachable b2' \<and> length (box_times b1') = length (box_times b2')"
  proof (cases "passes_preconditions b1 b2 left_bound")
    case False
    from sim_fails_preconditions [OF False] a have "b1' = b1 \<and> b2' = b2" by auto
    with a show ?thesis by simp
  next
    case True
    from a have run: "elastic_collision_sim b1 b2 left_bound = Some (res, b1', b2')" by simp
    show ?thesis
    proof (rule sim_result_loop [OF True run])
      fix r u
      assume loop: "sim_loop left_bound \<lparr> Box1 = b1, Box2 = b2, collisions = 0 \<rparr> = Some (r, u)"
        and b: "b1' = Box1 u" "b2' = Box2 u"
      from a have "Box_reachable (Box1 \<lparr> Box1 = b1, Box2 = b2, collisions = 0 \<rparr>)"
        "Box_reachable (Box2 \<lparr> Box1 = b1, Box2 = b2, collisions = 0 \<rparr>)"
        "length (box_times (Box1 \<lparr> Box1 = b1, Box2 = b2, collisions = 0 \<rparr>)) =
         length (box_times (Box2 \<lparr> Box1 = b1, Box2 = b2, collisions = 0 \<rparr>))"
        by simp_all
      with loop have "Box_reachable (Box1 u) \<and> Box_reachable (Box2 u) \<and>
         length (box_times (Box1 u)) = length (box_times (Box2 u))"
        by (rule sim_loop_histories)
      with b show ?thesis by simp
    qed
  qed
  then show "Box_reachable b1'" "Box_reachable b2'" "length (box_times b1') = length (box_times b2')"
    by simp_all
qed

theorem histories_stay_aligned_witness:
  "length (box_times (snd (update 2 4 5 (new_Box 3 7 0 1)))) = 2 \<and>
   sorted (box_times (snd (update 2 4 5 (new_Box 3 7 0 1)))) \<and>
   length (box_times (snd (update 1 0 1 (new_Box 1 1 (- 1) 1)))) =
   length (box_times (snd (update 2 7 1 (new_Box 5 1 2 1)))) \<and>
   length (box_times (snd (update 1 0 1 (new_Box 1 1 (- 1) 1)))) =
   length (box_times (new_Box 1 1 (- 1) 1)) + 1"
proof -
  let ?b = "snd (update 2 4 5 (new_Box 3 7 0 1))"
  let ?s0 = "\<lparr> Box1 = new_Box 1 1 (- 1) 1, Box2 = new_Box 5 1 2 1, collisions = 0 \<rparr>"
  let ?s1 = "\<lparr> Box1 = snd (update 1 0 1 (new_Box 1 1 (- 1) 1)),
               Box2 = snd (update 2 7 1 (new_Box 5 1 2 1)), collisions = 1 \<rparr>"
  let ?r = "\<lparr> Collisions = 1, Smallest_Interval = 1,
               Box_1 = snd (update 1 0 1 (new_Box 1 1 (- 1) 1)),
               Box_2 = snd (update 2 7 1 (new_Box 5 1 2 1)) \<rparr>"
  have rb: "Box_reachable ?b" by (rule updated, rule Box_reachable_new) simp_all
  have r1: "Box_reachable (new_Box 1 1 (- 1) 1)" by (rule Box_reachable_new) simp_all
  have r2: "Box_reachable (new_Box 5 1 2 1)" by (rule Box_reachable_new) simp_all
  have len: "length (box_times (new_Box 1 1 (- 1) 1)) = length (box_times (new_Box 5 1 2 1))"
    by (simp add: new_Box_def)
  note inst = histories_stay_aligned
      [of ?b 0 ?s0 ?s1 "new_Box 1 1 (- 1) 1" "new_Box 5 1 2 1" "Inr ?r"
          "snd (update 1 0 1 (new_Box 1 1 (- 1) 1))" "snd (update 2 7 1 (new_Box 5 1 2 1))"]
  from inst rb have 1: "1 \<le> length (box_times ?b) \<and> sorted (box_times ?b)" by blast
  from inst wall_only_step1
  have 2: "length (box_times (Box1 ?s1)) = length (box_times (Box1 ?s0)) + 1" by blast
  from inst r1 r2 len run_wall_only
  have 3: "length (box_times (snd (update 1 0 1 (new_Box 1 1 (- 1) 1)))) =
           length (box_times (snd (update 2 7 1 (new_Box 5 1 2 1))))" by blast
  have 4: "length (box_times ?b) = 2" by (simp add: update_def new_Box_def Let_def)
  from 1 2 3 4 show ?thesis by simp
qed

subsection \<open>The checks before the loop and failures\<close>

lemma check_overlap_raises:
  "check_overlap b1 b2 = Inl Exception_overlap \<longleftrightarrow>
   box_x0 b2 < box_x0 b1 + box_l b1 \<and> box_x0 b1 + box_l b1 \<le> box_x0 b2 + box_l b2"
  by (simp add: check_overlap_def Let_def)

text \<open>
  C2 does not hold of the code. The test \<^verbatim>\<open>x2 < x1+l1 <= x2+l2\<close> only asks whether the
  right end of the first box lies inside the second one. A second box that lies
  within the first one passes it: here the footprints \<open>[0, 10)\<close> and \<open>[2, 3)\<close>
  intersect, \<^verbatim>\<open>check_overlap\<close> returns, the two other checks pass, and the run
  fails only in its first pass, with the time error of \<^verbatim>\<open>update\<close>.
\<close>

theorem contained_box_passes_check_overlap:
  "Box_init 0 1 0 10 = Inr (new_Box 0 1 0 10) \<and>
   Box_init 2 1 (- 1) 1 = Inr (new_Box 2 1 (- 1) 1) \<and>
   footprints_intersect (new_Box 0 1 0 10) (new_Box 2 1 (- 1) 1) \<and>
   check_overlap (new_Box 0 1 0 10) (new_Box 2 1 (- 1) 1) = Inr () \<and>
   elastic_collision_sim (new_Box 0 1 0 10) (new_Box 2 1 (- 1) 1) 0 =
     Some (Inl ValueError_time, new_Box 0 1 0 10, new_Box 2 1 (- 1) 1)"
  by (simp add: run_contained Box_init_def)
     (simp add: footprints_intersect_def check_overlap_def new_Box_def)

text \<open>
  C3 does not hold of the code. With equal positive velocities the exit test
  \<^verbatim>\<open>v1 < v2 and v2 > 0\<close> fails, the default branch divides by \<open>v2 - v1 = 0\<close> and the
  run raises. A run whose boxes already move apart at the start reaches the exit
  branch with a single recorded time, and \<^verbatim>\<open>np.min\<close> of the empty array of
  differences raises.
\<close>

theorem equal_velocities_raise:
  "Box_init 0 1 1 1 = Inr (new_Box 0 1 1 1) \<and>
   Box_init 5 1 1 1 = Inr (new_Box 5 1 1 1) \<and>
   Box_init 0 1 0 1 = Inr (new_Box 0 1 0 1) \<and>
   elastic_collision_sim (new_Box 0 1 1 1) (new_Box 5 1 1 1) 0 =
     Some (Inl ZeroDivisionError, new_Box 0 1 1 1, new_Box 5 1 1 1) \<and>
   elastic_collision_sim (new_Box 0 1 0 1) (new_Box 5 1 1 1) 0 =
     Some (Inl ValueError_empty_min, new_Box 0 1 0 1, new_Box 5 1 1 1)"
  by (simp add: run_equal_velocities run_already_apart Box_init_def)

text \<open>
  C9 does not hold of the code for failures after the checks. In the run below the
  first pass is a wall bounce that advances both boxes; the velocities are then
  equal and the second pass divides by zero. The run raises with both boxes
  changed.
\<close>

theorem run_fails_after_an_event:
  "Box_init 1 1 (- 1) 1 = Inr (new_Box 1 1 (- 1) 1) \<and>
   Box_init 5 1 1 1 = Inr (new_Box 5 1 1 1) \<and>
   elastic_collision_sim (new_Box 1 1 (- 1) 1) (new_Box 5 1 1 1) 0 =
     Some (Inl ZeroDivisionError,
           snd (update 1 0 1 (new_Box 1 1 (- 1) 1)),
           snd (update 1 6 1 (new_Box 5 1 1 1))) \<and>
   box_x_hist (snd (update 1 0 1 (new_Box 1 1 (- 1) 1))) = [1, 0] \<and>
   box_x_hist (new_Box 1 1 (- 1) 1) = [1] \<and>
   box_x_hist (snd (update 1 6 1 (new_Box 5 1 1 1))) = [5, 6] \<and>
   box_x_hist (new_Box 5 1 1 1) = [5]"
  by (simp add: run_bounce_then_equal Box_init_def)
     (simp add: update_def new_Box_def Let_def)

text \<open>
  The part of C9 about the checks themselves holds: each check raises under its
  condition, in source order, and a run that raises one of the three check errors
  has changed neither box, since the loop cannot raise those errors.
\<close>

lemma precondition_failures_leave_boxes:
  "(m \<le> 0 \<longrightarrow> Box_init x0 m v0 l = Inl ValueError_mass) \<and>
   (0 < m \<and> l \<le> 0 \<longrightarrow> Box_init x0 m v0 l = Inl ValueError_length) \<and>
   (check_overlap b1 b2 = Inl Exception_overlap \<longrightarrow>
      elastic_collision_sim b1 b2 left_bound = Some (Inl Exception_overlap, b1, b2)) \<and>
   (check_overlap b1 b2 = Inr () \<and> (box_x0 b1 < left_bound \<or> box_x0 b2 < left_bound) \<longrightarrow>
      elastic_collision_sim b1 b2 left_bound = Some (Inl Exception_boundary, b1, b2)) \<and>
   (check_overlap b1 b2 = Inr () \<and> \<not> (box_x0 b1 < left_bound \<or> box_x0 b2 < left_bound) \<and>
    box_x0 b2 < box_x0 b1 \<longrightarrow>
      elastic_collision_sim b1 b2 left_bound = Some (Inl Exception_ordering, b1, b2)) \<and>
   (elastic_collision_sim b1 b2 left_bound = Some (Inl e, b1', b2') \<and>
    e \<in> {Exception_overlap, Exception_boundary, Exception_ordering} \<longrightarrow>
      b1' = b1 \<and> b2' = b2 \<and> \<not> passes_preconditions b1 b2 left_bound)"
proof (intro conjI impI)
  assume a: "elastic_collision_sim b1 b2 left_bound = Some (Inl e, b1', b2') \<and>
    e \<in> {Exception_overlap, Exception_boundary, Exception_ordering}"
  have np: "\<not> passes_preconditions b1 b2 left_bound"
  proof
    assume p: "passes_preconditions b1 b2 left_bound"
    from a have run: "elastic_collision_sim b1 b2 left_bound = Some (Inl e, b1', b2')" by simp
    show False
    proof (rule sim_result_loop [OF p run])
      fix r u
      assume loop: "sim_loop left_bound \<lparr> Box1 = b1, Box2 = b2, collisions = 0 \<rparr> = Some (r, u)"
        and brk: "\<And>d. r = Break d \<Longrightarrow> Inl e = Inr \<lparr> Collisions = collisions u,
                   Smallest_Interval = d, Box_1 = Box1 u, Box_2 = Box2 u \<rparr>"
        and rse: "\<And>e'. r = Raise e' \<Longrightarrow> Inl e = Inl e'" and nc: "r \<noteq> Continue"
      from brk nc obtain e' where r: "r = Raise e'" by (cases r) auto
      from rse [OF r] have e: "e' = e" by simp
      have "\<exists>s0. True \<and> iteration left_bound s0 = (r, u) \<and> r \<noteq> Continue"
        by (rule sim_loop_last [OF loop, of "\<lambda>_. True"]) simp_all
      then obtain s0 where "iteration left_bound s0 = (Raise e, u)" using r e by auto
      from iteration_Raise [OF this] a show False by auto
    qed
  qed
  from sim_fails_preconditions [OF np] a
  show "b1' = b1" "b2' = b2" by auto
  from np show "\<not> passes_preconditions b1 b2 left_bound" .
qed (auto simp: Box_init_def elastic_collision_sim_def)

subsection \<open>Equal masses\<close>

text \<open>
  C4, as stated, fails. With the positions 3 and 8, lengths 1 and the wall at 0 the
  run returns 3, not 1: after the first collision the left box moves towards the
  wall, so the next pass is a wall bounce, not the exit.
\<close>

theorem equal_masses_counterexample:
  "elastic_collision_sim (new_Box 3 1 0 1) (new_Box 8 1 (- 1) 1) 0 =
     Some (Inr \<lparr> Collisions = 3, Smallest_Interval = 3,
                 Box_1 = snd (update 0 3 3 (snd (update 1 0 3 (snd (update (- 1) 3 4
                           (new_Box 3 1 0 1)))))),
                 Box_2 = snd (update 1 4 3 (snd (update 0 4 3 (snd (update 0 4 4
                           (new_Box 8 1 (- 1) 1)))))) \<rparr>,
           snd (update 0 3 3 (snd (update 1 0 3 (snd (update (- 1) 3 4 (new_Box 3 1 0 1)))))),
           snd (update 1 4 3 (snd (update 0 4 3 (snd (update 0 4 4 (new_Box 8 1 (- 1) 1)))))))"
proof -
  define a0 where "a0 = new_Box 3 1 0 1"
  define b0 where "b0 = new_Box 8 1 (- 1) 1"
  define a1 where "a1 = snd (update (- 1) 3 4 a0)"
  define b1 where "b1 = snd (update 0 4 4 b0)"
  define a2 where "a2 = snd (update 1 0 3 a1)"
  define b2 where "b2 = snd (update 0 4 3 b1)"
  define a3 where "a3 = snd (update 0 3 3 a2)"
  define b3 where "b3 = snd (update 1 4 3 b2)"
  note boxes = a0_def b0_def a1_def b1_def a2_def b2_def a3_def b3_def
  have i1: "iteration 0 \<lparr> Box1 = a0, Box2 = b0, collisions = 0 \<rparr>
              = (Continue, \<lparr> Box1 = a1, Box2 = b1, collisions = 1 \<rparr>)"
    by (simp add: boxes run_simps)
  have i2: "iteration 0 \<lparr> Box1 = a1, Box2 = b1, collisions = 1 \<rparr>
              = (Continue, \<lparr> Box1 = a2, Box2 = b2, collisions = 2 \<rparr>)"
    by (simp add: boxes run_simps)
  have i3: "iteration 0 \<lparr> Box1 = a2, Box2 = b2, collisions = 2 \<rparr>
              = (Continue, \<lparr> Box1 = a3, Box2 = b3, collisions = 3 \<rparr>)"
    by (simp add: boxes run_simps)
  have i4: "iteration 0 \<lparr> Box1 = a3, Box2 = b3, collisions = 3 \<rparr>
              = (Break 3, \<lparr> Box1 = a3, Box2 = b3, collisions = 3 \<rparr>)"
    by (simp add: boxes run_simps)
  have loop: "sim_loop 0 \<lparr> Box1 = a0, Box2 = b0, collisions = 0 \<rparr>
          = Some (Break 3, \<lparr> Box1 = a3, Box2 = b3, collisions = 3 \<rparr>)"
    using sim_loop_Continue [OF i1] sim_loop_Continue [OF i2] sim_loop_Continue [OF i3]
      sim_loop_Break [OF i4] by simp
  have pre: "passes_preconditions a0 b0 0"
    by (simp add: passes_preconditions_def check_overlap_def a0_def b0_def new_Box_def)
  have "elastic_collision_sim a0 b0 0 =
      Some (Inr \<lparr> Collisions = 3, Smallest_Interval = 3, Box_1 = a3, Box_2 = b3 \<rparr>, a3, b3)"
    by (simp add: sim_passes_preconditions [OF pre] loop)
  then show ?thesis unfolding boxes .
qed

text \<open>
  C4, amended. For masses 1 and 1, the left box at rest at or right of the wall and
  the right box approaching with velocity \<open>- 1\<close> from a position that leaves no
  overlap, where the two positions, the two lengths and the wall are whole numbers
  of magnitude at most \<open>2 ^ 50\<close>, the run returns the count 3. The first event is a
  mutual collision that exchanges the velocities (to \<open>- 1\<close> and \<open>0\<close>), the second a
  wall bounce (to \<open>1\<close> and \<open>0\<close>), the third a second mutual collision (to \<open>0\<close> and
  \<open>1\<close>); the fourth pass leaves the loop. The restriction to whole numbers of that
  size keeps every sum, difference, product and quotient of the run a whole number
  below \<open>2 ^ 53\<close>, which double-precision arithmetic computes without rounding, so
  that the run of the program is the run of the model. Without it the statement
  is one about exact arithmetic only: for the lengths \<open>0.1\<close> and \<open>1\<close> and the
  positions \<open>0\<close> and \<open>0.4\<close> the rounded time of the third event is negative and
  \<^verbatim>\<open>update\<close> raises.
\<close>

theorem equal_masses_three_events:
  fixes x0_1 l1 x0_2 l2 left_bound :: int
  assumes "left_bound \<le> x0_1" and "x0_1 + l1 \<le> x0_2" and "0 < l1" and "0 < l2"
    and "\<bar>x0_1\<bar> \<le> 2 ^ 50" and "\<bar>l1\<bar> \<le> 2 ^ 50" and "\<bar>x0_2\<bar> \<le> 2 ^ 50"
    and "\<bar>l2\<bar> \<le> 2 ^ 50" and "\<bar>left_bound\<bar> \<le> 2 ^ 50"
  shows "Box_init (real_of_int x0_1) 1 0 (real_of_int l1) =
           Inr (new_Box (real_of_int x0_1) 1 0 (real_of_int l1)) \<and>
         Box_init (real_of_int x0_2) 1 (- 1) (real_of_int l2) =
           Inr (new_Box (real_of_int x0_2) 1 (- 1) (real_of_int l2)) \<and>
         (\<exists>r. elastic_collision_sim (new_Box (real_of_int x0_1) 1 0 (real_of_int l1))
                 (new_Box (real_of_int x0_2) 1 (- 1) (real_of_int l2)) (real_of_int left_bound) =
               Some (Inr r, Box_1 r, Box_2 r) \<and>
             Collisions r = 3 \<and>
             box_v_hist (Box_1 r) = [0, - 1, 1, 0] \<and>
             box_v_hist (Box_2 r) = [- 1, 0, 0, 1] \<and>
             box_v (Box_1 r) = 0 \<and> box_v (Box_2 r) = 1)"
proof -
  define w where "w = real_of_int left_bound"
  define p where "p = real_of_int x0_1"
  define k where "k = real_of_int l1"
  define q where "q = real_of_int x0_2"
  define n where "n = real_of_int l2"
  have "real_of_int (x0_1 + l1) \<le> real_of_int x0_2"
    using assms(2) by (simp only: of_int_le_iff)
  then have gap: "p + k \<le> q" by (simp add: p_def k_def q_def)
  have wall: "w \<le> p" using assms(1) by (simp add: w_def p_def)
  have len: "0 < k" "0 < n" using assms(3,4) by (simp_all add: k_def n_def)
  note geo = wall gap len
  define t1 where "t1 = q - (p + k)"
  define t2 where "t2 = p - w"
  define a0 where "a0 = new_Box p 1 0 k"
  define b0 where "b0 = new_Box q 1 (- 1) n"
  define a1 where "a1 = snd (update (- 1) p t1 a0)"
  define b1 where "b1 = snd (update 0 (p + k) t1 b0)"
  define a2 where "a2 = snd (update 1 w t2 a1)"
  define b2 where "b2 = snd (update 0 (p + k) t2 b1)"
  define a3 where "a3 = snd (update 0 p t2 a2)"
  define b3 where "b3 = snd (update 1 (p + k) t2 b2)"
  note boxes = a0_def b0_def a1_def b1_def a2_def b2_def a3_def b3_def
  have i1: "iteration w \<lparr> Box1 = a0, Box2 = b0, collisions = 0 \<rparr>
              = (Continue, \<lparr> Box1 = a1, Box2 = b1, collisions = 1 \<rparr>)"
    using geo by (auto simp add: boxes t1_def t2_def run_simps)
  have i2: "iteration w \<lparr> Box1 = a1, Box2 = b1, collisions = 1 \<rparr>
              = (Continue, \<lparr> Box1 = a2, Box2 = b2, collisions = 2 \<rparr>)"
    using geo by (auto simp add: boxes t1_def t2_def run_simps)
  have i3: "iteration w \<lparr> Box1 = a2, Box2 = b2, collisions = 2 \<rparr>
              = (Continue, \<lparr> Box1 = a3, Box2 = b3, collisions = 3 \<rparr>)"
    using geo by (auto simp add: boxes t1_def t2_def run_simps)
  have i4: "\<exists>d. iteration w \<lparr> Box1 = a3, Box2 = b3, collisions = 3 \<rparr>
              = (Break d, \<lparr> Box1 = a3, Box2 = b3, collisions = 3 \<rparr>)"
    using geo by (auto simp add: boxes t1_def t2_def run_simps)
  then obtain d where i4': "iteration w \<lparr> Box1 = a3, Box2 = b3, collisions = 3 \<rparr>
              = (Break d, \<lparr> Box1 = a3, Box2 = b3, collisions = 3 \<rparr>)" ..
  have loop: "sim_loop w \<lparr> Box1 = a0, Box2 = b0, collisions = 0 \<rparr>
          = Some (Break d, \<lparr> Box1 = a3, Box2 = b3, collisions = 3 \<rparr>)"
    using sim_loop_Continue [OF i1] sim_loop_Continue [OF i2] sim_loop_Continue [OF i3]
      sim_loop_Break [OF i4'] by simp
  have pre: "check_overlap a0 b0 = Inr ()" "\<not> (box_x0 a0 < w \<or> box_x0 b0 < w)"
    "\<not> box_x0 b0 < box_x0 a0"
    using geo by (auto simp add: a0_def b0_def check_overlap_def new_Box_def)
  have res: "elastic_collision_sim a0 b0 w =
      Some (Inr \<lparr> Collisions = 3, Smallest_Interval = d, Box_1 = a3, Box_2 = b3 \<rparr>, a3, b3)"
    using pre loop by (simp add: elastic_collision_sim_def)
  have hist: "box_v_hist a3 = [0, - 1, 1, 0]" "box_v_hist b3 = [- 1, 0, 0, 1]"
    "box_v a3 = 0" "box_v b3 = 1"
    using geo by (auto simp add: boxes t1_def t2_def update_def new_Box_def Let_def)
  have init: "Box_init p 1 0 k = Inr (new_Box p 1 0 k)"
    "Box_init q 1 (- 1) n = Inr (new_Box q 1 (- 1) n)"
    using geo by (simp_all add: Box_init_def)
  from res hist init show ?thesis
    unfolding a0_def b0_def w_def p_def k_def q_def n_def by simp
qed

theorem equal_masses_three_events_witness:
  "\<exists>r. elastic_collision_sim (new_Box 3 1 0 1) (new_Box 8 1 (- 1) 1) 0 =
           Some (Inr r, Box_1 r, Box_2 r) \<and>
         Collisions r = 3 \<and>
         box_v_hist (Box_1 r) = [0, - 1, 1, 0] \<and>
         box_v_hist (Box_2 r) = [- 1, 0, 0, 1] \<and>
         box_v (Box_1 r) = 0 \<and> box_v (Box_2 r) = 1"
  using equal_masses_three_events [of 0 3 1 8 1] by simp

end
